theory Spec2Isabelle
  imports Main "HOL-Library.Multiset"
begin

section \<open>JavaScript strings\<close>

text \<open>
  A JavaScript string is a sequence of UTF-16 code units. The model uses \<^typ>\<open>string\<close>,
  whose characters have eight bits, read as the code units U+0000 to U+00FF: every
  marker, extension and label of the program lies in that range. The two string
  operations whose result depends on the character set (\<open>trim\<close>, \<open>toLowerCase\<close>) are
  written out for that range as ECMAScript defines them.
\<close>

text \<open>
  \<open>String.prototype.trim\<close> removes WhiteSpace and LineTerminator code points from both
  ends. Below U+0100 these are TAB, LF, VT, FF, CR, SPACE and NO-BREAK SPACE.
\<close>

definition isWhiteSpace :: "char \<Rightarrow> bool" where
  "isWhiteSpace c =
     (c = CHR 0x09 \<or> c = CHR 0x0A \<or> c = CHR 0x0B \<or> c = CHR 0x0C \<or> c = CHR 0x0D
      \<or> c = CHR 0x20 \<or> c = CHR 0xA0)"

definition trim :: "string \<Rightarrow> string" where
  "trim s = rev (dropWhile isWhiteSpace (rev (dropWhile isWhiteSpace s)))"

text \<open>
  \<open>String.prototype.toLowerCase\<close>: below U+0100 the letters with a lower-case mapping
  are A to Z and U+00C0 to U+00DE without the multiplication sign U+00D7, each mapped
  to the code unit 32 above it.
\<close>

definition lowerChar :: "char \<Rightarrow> char" where
  "lowerChar c =
     (let n = (of_char c :: nat)
      in if (65 \<le> n \<and> n \<le> 90) \<or> (192 \<le> n \<and> n \<le> 222 \<and> n \<noteq> 215)
         then char_of (n + 32) else c)"

definition toLowerCase :: "string \<Rightarrow> string" where
  "toLowerCase s = map lowerChar s"

text \<open>\<open>s.startsWith(m)\<close> and \<open>s.includes(m)\<close>: \<open>m\<close> is a prefix, a contiguous part, of \<open>s\<close>.\<close>

fun startsWith :: "string \<Rightarrow> string \<Rightarrow> bool" where
  "startsWith s [] = True"
| "startsWith [] (m # ms) = False"
| "startsWith (c # cs) (m # ms) = (c = m \<and> startsWith cs ms)"

fun includes_str :: "string \<Rightarrow> string \<Rightarrow> bool" where
  "includes_str [] m = startsWith [] m"
| "includes_str (c # cs) m = (startsWith (c # cs) m \<or> includes_str cs m)"

text \<open>
  \<open>s.split(sep)\<close> for a separator of one character: the pieces between the occurrences
  of the separator, so one piece more than there are separators, and \<open>['']\<close> for the
  empty string.
\<close>

fun split_str :: "char \<Rightarrow> string \<Rightarrow> string list" where
  "split_str sep [] = [[]]"
| "split_str sep (c # cs) =
     (if c = sep then [] # split_str sep cs
      else (case split_str sep cs of
              [] \<Rightarrow> [[c]]
            | piece # pieces \<Rightarrow> (c # piece) # pieces))"

section \<open>Property lookup on object literals\<close>

text \<open>
  The three tables of the program (\<open>languageMap\<close>, \<open>patterns\<close>, \<open>languageStats\<close>) are
  object literals read with \<open>table[key]\<close>. Such a read finds the object's own
  properties first and then the members every object literal inherits from
  \<open>Object.prototype\<close>, whose names are listed here; only a key that is neither gives
  \<open>undefined\<close>. An own property list keeps the order of insertion.
\<close>

definition objectPrototypeKeys :: "string list" where
  "objectPrototypeKeys =
     [''constructor'', ''hasOwnProperty'', ''isPrototypeOf'', ''propertyIsEnumerable'',
      ''toLocaleString'', ''toString'', ''valueOf'', ''__proto__'',
      ''__defineGetter__'', ''__defineSetter__'', ''__lookupGetter__'',
      ''__lookupSetter__'']"

datatype 'a property = Own 'a | Inherited | Undefined

definition getProp :: "(string \<times> 'a) list \<Rightarrow> string \<Rightarrow> 'a property" where
  "getProp obj key =
     (case map_of obj key of
        Some v \<Rightarrow> Own v
      | None \<Rightarrow> if key \<in> set objectPrototypeKeys then Inherited else Undefined)"

text \<open>
  A value of the program that is typed \<open>string\<close>: a string, or (at run time) the member
  of \<open>Object.prototype\<close> that a table read has returned, named by its key.
\<close>

datatype js_value = JStr string | ProtoMember string

text \<open>
  The property key a value is converted to when it indexes an object: a string is its
  own key; \<open>Object.prototype\<close> itself (the member \<open>__proto__\<close>) prints as
  \<open>[object Object]\<close>, and the other members are native functions, printed with their
  name (\<open>Object\<close> for \<open>constructor\<close>).
\<close>

definition toPropertyKey :: "js_value \<Rightarrow> string" where
  "toPropertyKey v =
     (case v of
        JStr s \<Rightarrow> s
      | ProtoMember m \<Rightarrow>
          if m = ''__proto__'' then ''[object Object]''
          else ''function '' @ (if m = ''constructor'' then ''Object'' else m)
               @ ''() { [native code] }'')"

section \<open>Language detection\<close>

definition languageMap :: "(string \<times> string) list" where
  "languageMap =
     [(''js'', ''JavaScript''),
      (''jsx'', ''JavaScript React''),
      (''ts'', ''TypeScript''),
      (''tsx'', ''TypeScript React''),
      (''py'', ''Python''),
      (''java'', ''Java''),
      (''cpp'', ''C++''),
      (''cc'', ''C++''),
      (''cxx'', ''C++''),
      (''c'', ''C''),
      (''h'', ''C Header''),
      (''hpp'', ''C++ Header''),
      (''cs'', ''C#''),
      (''php'', ''PHP''),
      (''rb'', ''Ruby''),
      (''go'', ''Go''),
      (''rs'', ''Rust''),
      (''swift'', ''Swift''),
      (''kt'', ''Kotlin''),
      (''dart'', ''Dart''),
      (''vue'', ''Vue''),
      (''html'', ''HTML''),
      (''htm'', ''HTML''),
      (''css'', ''CSS''),
      (''scss'', ''SCSS''),
      (''sass'', ''Sass''),
      (''less'', ''Less''),
      (''xml'', ''XML''),
      (''json'', ''JSON''),
      (''md'', ''Markdown''),
      (''txt'', ''Text''),
      (''sql'', ''SQL''),
      (''sh'', ''Shell''),
      (''bat'', ''Batch''),
      (''ps1'', ''PowerShell''),
      (''yaml'', ''YAML''),
      (''yml'', ''YAML'')]"

text \<open>
  \<open>filename.split('.').pop()?.toLowerCase() || ''\<close>: the last piece of the split in
  lower case. \<open>pop\<close> of an empty array would give \<open>undefined\<close> and so the fallback
  \<open>''\<close>; an empty last piece is falsy and gives the same \<open>''\<close>.
\<close>

definition extensionOf :: "string \<Rightarrow> string" where
  "extensionOf filename =
     (let pieces = split_str CHR ''.'' filename
      in if pieces = [] then [] else toLowerCase (last pieces))"

text \<open>
  \<open>languageMap[ext] || 'Unknown'\<close>: every label of the table is a non-empty string and
  every inherited member is an object, so both are truthy and returned as they are.
\<close>

definition getLanguageFromExtension :: "string \<Rightarrow> js_value" where
  "getLanguageFromExtension filename =
     (let ext = extensionOf filename
      in case getProp languageMap ext of
           Own label \<Rightarrow> if label = [] then JStr ''Unknown'' else JStr label
         | Inherited \<Rightarrow> ProtoMember ext
         | Undefined \<Rightarrow> JStr ''Unknown'')"

section \<open>Comment patterns\<close>

record comment_patterns =
  single :: "string option"
  blockStart :: "string option"
  blockEnd :: "string option"

definition mk_patterns :: "string option \<Rightarrow> string option \<Rightarrow> string option \<Rightarrow> comment_patterns" where
  "mk_patterns s bs be = \<lparr>single = s, blockStart = bs, blockEnd = be\<rparr>"

definition c_style :: comment_patterns where
  "c_style = mk_patterns (Some ''//'') (Some ''/*'') (Some ''*/'')"

definition patterns :: "(string \<times> comment_patterns) list" where
  "patterns =
     [(''JavaScript'', c_style),
      (''JavaScript React'', c_style),
      (''TypeScript'', c_style),
      (''TypeScript React'', c_style),
      (''Java'', c_style),
      (''C++'', c_style),
      (''C'', c_style),
      (''C Header'', c_style),
      (''C++ Header'', c_style),
      (''C#'', c_style),
      (''PHP'', c_style),
      (''CSS'', mk_patterns None (Some ''/*'') (Some ''*/'')),
      (''SCSS'', c_style),
      (''Sass'', mk_patterns (Some ''//'') None None),
      (''Less'', c_style),
      (''Python'', mk_patterns (Some ''#'') (Some [CHR 0x22, CHR 0x22, CHR 0x22])
                                          (Some [CHR 0x22, CHR 0x22, CHR 0x22])),
      (''Ruby'', mk_patterns (Some ''#'') (Some ''=begin'') (Some ''=end'')),
      (''Go'', c_style),
      (''Rust'', c_style),
      (''Swift'', c_style),
      (''Kotlin'', c_style),
      (''Dart'', c_style),
      (''Shell'', mk_patterns (Some ''#'') None None),
      (''Batch'', mk_patterns (Some ''REM'') None None),
      (''PowerShell'', mk_patterns (Some ''#'') (Some ''<#'') (Some ''#>'')),
      (''HTML'', mk_patterns None (Some ''<!--'') (Some ''-->'')),
      (''XML'', mk_patterns None (Some ''<!--'') (Some ''-->'')),
      (''Vue'', mk_patterns None (Some ''<!--'') (Some ''-->'')),
      (''SQL'', mk_patterns (Some ''--'') (Some ''/*'') (Some ''*/'')),
      (''YAML'', mk_patterns (Some ''#'') None None)]"

definition defaultPatterns :: comment_patterns where
  "defaultPatterns = mk_patterns (Some ''//'') None None"

text \<open>
  \<open>patterns[language] || { single: '//' }\<close>. An inherited member is truthy and is returned
  itself; it has none of the properties \<open>single\<close>, \<open>blockStart\<close>, \<open>blockEnd\<close>, so the
  classifier reads all three as \<open>undefined\<close>.
\<close>

definition getCommentPatterns :: "js_value \<Rightarrow> comment_patterns" where
  "getCommentPatterns language =
     (case getProp patterns (toPropertyKey language) of
        Own p \<Rightarrow> p
      | Inherited \<Rightarrow> mk_patterns None None None
      | Undefined \<Rightarrow> defaultPatterns)"

section \<open>Line classification\<close>

text \<open>An optional string in a condition: \<open>undefined\<close> and \<open>''\<close> are falsy.\<close>

definition truthy :: "string option \<Rightarrow> bool" where
  "truthy m = (case m of None \<Rightarrow> False | Some s \<Rightarrow> s \<noteq> [])"

text \<open>The local variables of \<open>analyzeFileContent\<close> that the loop over the lines updates.\<close>

record scan_state =
  blankLines :: nat
  commentLines :: nat
  codeLines :: nat
  inBlockComment :: bool

definition initialState :: scan_state where
  "initialState = \<lparr>blankLines = 0, commentLines = 0, codeLines = 0, inBlockComment = False\<rparr>"

text \<open>
  The block-comment part of the loop body: the pair of \<open>isComment\<close> and the new
  \<open>inBlockComment\<close>.
\<close>

definition blockCheck :: "comment_patterns \<Rightarrow> bool \<Rightarrow> string \<Rightarrow> bool \<times> bool" where
  "blockCheck pats inBlock trimmed =
     (if truthy (blockStart pats) \<and> truthy (blockEnd pats) then
        (if inBlock then
           (True, if includes_str trimmed (the (blockEnd pats)) then False else inBlock)
         else if includes_str trimmed (the (blockStart pats)) then
           (True, if includes_str trimmed (the (blockEnd pats)) then False else True)
         else (False, inBlock))
      else (False, inBlock))"

text \<open>The single-line part: evaluated only when \<open>isComment\<close> is still false.\<close>

definition singleCheck :: "comment_patterns \<Rightarrow> string \<Rightarrow> bool" where
  "singleCheck pats trimmed =
     (truthy (single pats) \<and>
      (startsWith trimmed (the (single pats)) \<or>
       (single pats = Some ''REM'' \<and> startsWith (toLowerCase trimmed) ''rem '')))"

definition scanLine :: "comment_patterns \<Rightarrow> scan_state \<Rightarrow> string \<Rightarrow> scan_state" where
  "scanLine pats st line =
     (let trimmed = trim line
      in if trimmed = [] then st\<lparr>blankLines := blankLines st + 1\<rparr>
         else
           (let (isComment, inBlock) = blockCheck pats (inBlockComment st) trimmed;
                isComment = (if \<not> isComment then singleCheck pats trimmed else isComment)
            in if isComment
               then st\<lparr>commentLines := commentLines st + 1, inBlockComment := inBlock\<rparr>
               else st\<lparr>codeLines := codeLines st + 1, inBlockComment := inBlock\<rparr>))"

definition scanLines :: "comment_patterns \<Rightarrow> scan_state \<Rightarrow> string list \<Rightarrow> scan_state" where
  "scanLines pats st ls = foldl (scanLine pats) st ls"

record FileAnalysis =
  name :: string
  language :: js_value
  lines :: nat
  blank :: nat
  comment :: nat
  code :: nat

definition analyzeFileContent :: "string \<Rightarrow> string \<Rightarrow> js_value \<Rightarrow> FileAnalysis" where
  "analyzeFileContent content filename lang =
     (let ls = split_str CHR 0x0A content;
          pats = getCommentPatterns lang;
          st = scanLines pats initialState ls
      in \<lparr>name = filename, language = lang, lines = length ls,
          blank = blankLines st, comment = commentLines st, code = codeLines st\<rparr>)"

section \<open>Aggregation\<close>

text \<open>
  The counters are JavaScript numbers holding non-negative integers; they are exact up
  to \<open>2^53\<close>, far beyond the number of lines a browser can hold, and are modelled as
  natural numbers. The fields of \<open>LanguageStats\<close> carry the prefix \<open>ls_\<close> because
  \<open>blank\<close>, \<open>comment\<close> and \<open>code\<close> already name the fields of a file's analysis.
\<close>

record LanguageStats =
  ls_files :: nat
  ls_blank :: nat
  ls_comment :: nat
  ls_code :: nat
  ls_total :: nat

record AnalysisResult =
  languages :: "(string \<times> LanguageStats) list"
  total :: LanguageStats
  files :: "FileAnalysis list"

text \<open>
  A \<open>File\<close> as the analysis uses it: its name, and what \<open>await file.text()\<close> gives,
  \<open>None\<close> when the promise rejects (or \<open>text\<close> cannot be called) and the \<open>catch\<close>
  block logs the error and goes on with the next file.
\<close>

record File =
  file_name :: string
  file_text :: "string option"

definition zeroStats :: LanguageStats where
  "zeroStats = \<lparr>ls_files = 0, ls_blank = 0, ls_comment = 0, ls_code = 0, ls_total = 0\<rparr>"

text \<open>\<open>obj[key] = v\<close>: an own property keeps its place, a new one is added last.\<close>

fun setProp :: "(string \<times> 'a) list \<Rightarrow> string \<Rightarrow> 'a \<Rightarrow> (string \<times> 'a) list" where
  "setProp [] key v = [(key, v)]"
| "setProp ((k, w) # ps) key v =
     (if k = key then (key, v) # ps else (k, w) # setProp ps key v)"

text \<open>The five updates \<open>languageStats[language].files++\<close> to \<open>.total += analysis.lines\<close>.\<close>

definition addAnalysis :: "LanguageStats \<Rightarrow> FileAnalysis \<Rightarrow> LanguageStats" where
  "addAnalysis s a =
     \<lparr>ls_files = ls_files s + 1,
      ls_blank = ls_blank s + blank a,
      ls_comment = ls_comment s + comment a,
      ls_code = ls_code s + code a,
      ls_total = ls_total s + lines a\<rparr>"

text \<open>
  The part of the loop body that follows \<open>fileAnalyses.push(analysis)\<close>. An entry of
  \<open>languageStats\<close> is an object, hence truthy. Were the key the name of an inherited
  member, that member would be truthy too, no entry would be created, and the five
  updates would write to the inherited member: \<open>languageStats\<close> itself, and so
  \<open>Object.values(languageStats)\<close>, would stay as it is.
\<close>

definition recordAnalysis ::
  "FileAnalysis \<Rightarrow> (string \<times> LanguageStats) list \<Rightarrow> (string \<times> LanguageStats) list" where
  "recordAnalysis a languageStats =
     (let key = toPropertyKey (language a)
      in case getProp languageStats key of
           Own s \<Rightarrow> setProp languageStats key (addAnalysis s a)
         | Inherited \<Rightarrow> languageStats
         | Undefined \<Rightarrow> setProp languageStats key (addAnalysis zeroStats a))"

text \<open>One iteration of the loop over the files, on the pair of \<open>fileAnalyses\<close> and \<open>languageStats\<close>.\<close>

definition processFile ::
  "FileAnalysis list \<times> (string \<times> LanguageStats) list \<Rightarrow> File
   \<Rightarrow> FileAnalysis list \<times> (string \<times> LanguageStats) list" where
  "processFile st file =
     (case file_text file of
        None \<Rightarrow> st
      | Some content \<Rightarrow>
          (let lang = getLanguageFromExtension (file_name file);
               analysis = analyzeFileContent content (file_name file) lang
           in (fst st @ [analysis], recordAnalysis analysis (snd st))))"

text \<open>The reducer of \<open>Object.values(languageStats).reduce\<close>.\<close>

definition sumStats :: "LanguageStats \<Rightarrow> LanguageStats \<Rightarrow> LanguageStats" where
  "sumStats acc stats =
     \<lparr>ls_files = ls_files acc + ls_files stats,
      ls_blank = ls_blank acc + ls_blank stats,
      ls_comment = ls_comment acc + ls_comment stats,
      ls_code = ls_code acc + ls_code stats,
      ls_total = ls_total acc + ls_total stats\<rparr>"

definition useCodeAnalyzer :: "File list \<Rightarrow> AnalysisResult" where
  "useCodeAnalyzer fs =
     (let (fileAnalyses, languageStats) = foldl processFile ([], []) fs
      in \<lparr>languages = languageStats,
          total = foldl sumStats zeroStats (map snd languageStats),
          files = fileAnalyses\<rparr>)"

section \<open>Notions used in the statements\<close>

text \<open>The number of lines a scan state has counted so far.\<close>

definition counted :: "scan_state \<Rightarrow> nat" where
  "counted st = blankLines st + commentLines st + codeLines st"

text \<open>The per-language statistics that a list of analyses adds up to, field by field.\<close>

definition statsOf :: "FileAnalysis list \<Rightarrow> LanguageStats" where
  "statsOf as =
     \<lparr>ls_files = length as,
      ls_blank = sum_list (map blank as),
      ls_comment = sum_list (map comment as),
      ls_code = sum_list (map code as),
      ls_total = sum_list (map lines as)\<rparr>"

text \<open>The field-wise sum of a list of per-language statistics.\<close>

definition sumOfStats :: "LanguageStats list \<Rightarrow> LanguageStats" where
  "sumOfStats ss =
     \<lparr>ls_files = sum_list (map ls_files ss),
      ls_blank = sum_list (map ls_blank ss),
      ls_comment = sum_list (map ls_comment ss),
      ls_code = sum_list (map ls_code ss),
      ls_total = sum_list (map ls_total ss)\<rparr>"

text \<open>The key under which an analysis is accumulated in \<open>languageStats\<close>.\<close>

definition keyOf :: "FileAnalysis \<Rightarrow> string" where
  "keyOf a = toPropertyKey (language a)"

text \<open>
  The files whose text can be read, and the analysis the loop body computes for such a
  file.
\<close>

definition readable :: "File \<Rightarrow> bool" where
  "readable f = (file_text f \<noteq> None)"

definition analysisOf :: "File \<Rightarrow> FileAnalysis" where
  "analysisOf f =
     analyzeFileContent (the (file_text f)) (file_name f) (getLanguageFromExtension (file_name f))"

definition analysesOf :: "File list \<Rightarrow> FileAnalysis list" where
  "analysesOf fs = map analysisOf (filter readable fs)"

section \<open>Strings: auxiliary facts\<close>

lemma length_split_str: "length (split_str sep s) = Suc (count_list s sep)"
  by (induction s) (auto split: list.splits)

lemma startsWith_iff: "startsWith s m \<longleftrightarrow> (\<exists>q. s = m @ q)"
  by (induction s m rule: startsWith.induct) auto

lemma includes_str_iff: "includes_str s m \<longleftrightarrow> (\<exists>p q. s = p @ m @ q)"
proof (induction s)
  case Nil
  show ?case by (cases m) simp_all
next
  case (Cons c cs)
  show ?case
  proof
    assume "includes_str (c # cs) m"
    then consider "startsWith (c # cs) m" | "includes_str cs m" by auto
    then show "\<exists>p q. c # cs = p @ m @ q"
    proof cases
      case 1
      then obtain q where "c # cs = m @ q" using startsWith_iff by blast
      then have "c # cs = [] @ m @ q" by simp
      then show ?thesis by blast
    next
      case 2
      then obtain p q where "cs = p @ m @ q" using Cons.IH by blast
      then have "c # cs = (c # p) @ m @ q" by simp
      then show ?thesis by blast
    qed
  next
    assume "\<exists>p q. c # cs = p @ m @ q"
    then obtain p q where pq: "c # cs = p @ m @ q" by blast
    show "includes_str (c # cs) m"
    proof (cases p)
      case Nil
      with pq have "startsWith (c # cs) m" using startsWith_iff by auto
      then show ?thesis by simp
    next
      case (Cons a p')
      with pq have "cs = p' @ m @ q" by simp
      then have "includes_str cs m" using Cons.IH by blast
      then show ?thesis by simp
    qed
  qed
qed

lemma rev_dropWhile_part: "x = rev (dropWhile P (rev x)) @ rev (takeWhile P (rev x))"
  by (metis rev_append rev_rev_ident takeWhile_dropWhile_id)

text \<open>The trimmed line is a contiguous part of the line.\<close>

lemma trim_part: "\<exists>p q. s = p @ trim s @ q"
proof -
  have "s = takeWhile isWhiteSpace s @ dropWhile isWhiteSpace s" by simp
  also have "dropWhile isWhiteSpace s =
      trim s @ rev (takeWhile isWhiteSpace (rev (dropWhile isWhiteSpace s)))"
    unfolding trim_def by (rule rev_dropWhile_part)
  finally show ?thesis by blast
qed

lemma includes_trim: "includes_str (trim s) m \<Longrightarrow> includes_str s m"
proof -
  assume "includes_str (trim s) m"
  then obtain p q where t: "trim s = p @ m @ q" using includes_str_iff by blast
  obtain p' q' where "s = p' @ trim s @ q'" using trim_part by blast
  with t have "s = (p' @ p) @ m @ (q @ q')" by simp
  then show ?thesis using includes_str_iff by blast
qed

section \<open>The line classifier\<close>

lemma counted_scanLine: "counted (scanLine pats st line) = Suc (counted st)"
  by (simp add: counted_def scanLine_def Let_def split: prod.splits)

lemma counted_scanLines: "counted (scanLines pats st ls) = counted st + length ls"
  unfolding scanLines_def
  by (induction ls arbitrary: st) (simp_all add: counted_scanLine)

text \<open>
  Claim C1. For every content, file name and language value, the blank, comment and
  code counts of the analysis add up to its line count, and the line count is the
  number of pieces of the content split at the newline character, which is one more
  than the number of newline characters.
\<close>

theorem counts_add_up_to_lines:
  "blank (analyzeFileContent content filename lang)
     + comment (analyzeFileContent content filename lang)
     + code (analyzeFileContent content filename lang)
     = lines (analyzeFileContent content filename lang)
   \<and> lines (analyzeFileContent content filename lang) = length (split_str CHR 0x0A content)
   \<and> length (split_str CHR 0x0A content) = Suc (count_list content CHR 0x0A)"
  using counted_scanLines [of "getCommentPatterns lang" initialState "split_str CHR 0x0A content"]
  by (simp add: analyzeFileContent_def Let_def counted_def initialState_def length_split_str)

text \<open>
  Claim C3, as the code has it. The content \<open>a\<newline>// comment\<newline>\<newline>b = 1\<newline>\<close> ends with a
  newline, so the split has a fifth, empty piece, which is counted as a line and as
  blank: under JavaScript the analysis has 5 lines, 2 blank, 1 comment and 2 code.
\<close>

theorem javascript_example_counts:
  "analyzeFileContent ''a\<newline>// comment\<newline>\<newline>b = 1\<newline>'' filename (JStr ''JavaScript'')
   = \<lparr>name = filename, language = JStr ''JavaScript'',
      lines = 5, blank = 2, comment = 1, code = 2\<rparr>"
  by code_simp

text \<open>Claim C3 as stated (4 lines, 1 blank, 1 comment, 2 code) does not hold of the code.\<close>

theorem javascript_example_counterexample:
  "\<not> (lines (analyzeFileContent ''a\<newline>// comment\<newline>\<newline>b = 1\<newline>'' ''a.js'' (JStr ''JavaScript'')) = 4
      \<and> blank (analyzeFileContent ''a\<newline>// comment\<newline>\<newline>b = 1\<newline>'' ''a.js'' (JStr ''JavaScript'')) = 1
      \<and> comment (analyzeFileContent ''a\<newline>// comment\<newline>\<newline>b = 1\<newline>'' ''a.js'' (JStr ''JavaScript'')) = 1
      \<and> code (analyzeFileContent ''a\<newline>// comment\<newline>\<newline>b = 1\<newline>'' ''a.js'' (JStr ''JavaScript'')) = 2)"
  by code_simp

lemma scanLine_blank:
  "trim line = [] \<Longrightarrow> scanLine pats st line = st\<lparr>blankLines := blankLines st + 1\<rparr>"
  by (simp add: scanLine_def)

lemma blankLines_scanLine:
  "blankLines (scanLine pats st line) = blankLines st + (if trim line = [] then 1 else 0)"
  by (simp add: scanLine_def Let_def split: prod.splits)

lemma blankLines_scanLines:
  "blankLines (scanLines pats st ls) = blankLines st + length (filter (\<lambda>l. trim l = []) ls)"
  unfolding scanLines_def
  by (induction ls arbitrary: st) (simp_all add: blankLines_scanLine)

text \<open>
  Claim C5. A line whose trimmed form is empty only increments the blank counter: the
  comment and code counters and the block-comment flag of any state, inside a block
  comment or not, are left as they are. Hence the blank count of an analysis is the
  number of lines of the content whose trimmed form is empty.
\<close>

theorem whitespace_line_is_blank:
  "(trim line = [] \<longrightarrow> scanLine pats st line = st\<lparr>blankLines := blankLines st + 1\<rparr>)
   \<and> blank (analyzeFileContent content filename lang)
       = length (filter (\<lambda>l. trim l = []) (split_str CHR 0x0A content))"
  using blankLines_scanLines [of "getCommentPatterns lang" initialState "split_str CHR 0x0A content"]
  by (simp add: scanLine_blank analyzeFileContent_def Let_def initialState_def)

theorem whitespace_line_is_blank_witness:
  "trim [CHR 0x20, CHR 0x09, CHR 0x20] = []
   \<and> scanLine c_style \<lparr>blankLines = 0, commentLines = 1, codeLines = 0, inBlockComment = True\<rparr>
        [CHR 0x20, CHR 0x09, CHR 0x20]
      = \<lparr>blankLines = 1, commentLines = 1, codeLines = 0, inBlockComment = True\<rparr>
   \<and> blank (analyzeFileContent ''/* a\<newline>  \<newline>b */'' ''a.c'' (JStr ''C'')) = 1"
proof -
  have h: "trim [CHR 0x20, CHR 0x09, CHR 0x20] = []"
    by (simp add: trim_def isWhiteSpace_def)
  have b: "length (filter (\<lambda>l. trim l = []) (split_str CHR 0x0A ''/* a\<newline>  \<newline>b */'')) = 1"
    by (simp add: trim_def isWhiteSpace_def)
  show ?thesis
    using h b whitespace_line_is_blank [of "[CHR 0x20, CHR 0x09, CHR 0x20]" c_style
        "\<lparr>blankLines = 0, commentLines = 1, codeLines = 0, inBlockComment = True\<rparr>"
        "''/* a\<newline>  \<newline>b */''" "''a.c''" "JStr ''C''"]
    by simp
qed

text \<open>
  Claim C6. With both block markers defined and a line that is not blank: inside a
  block comment the flag after the line is set exactly when the line lacks the end
  marker, whether or not it contains the start marker, so a line with the end marker
  clears the flag and never sets it again; outside a block comment the flag is set
  exactly when the line contains the start marker and lacks the end marker.
\<close>

theorem block_flag_after_line:
  assumes "truthy (blockStart pats)" and "truthy (blockEnd pats)" and "trim line \<noteq> []"
  shows "(inBlockComment (scanLine pats st line) \<longleftrightarrow>
           (if inBlockComment st
            then \<not> includes_str (trim line) (the (blockEnd pats))
            else includes_str (trim line) (the (blockStart pats))
                 \<and> \<not> includes_str (trim line) (the (blockEnd pats))))
         \<and> (inBlockComment st \<and> includes_str (trim line) (the (blockEnd pats))
              \<longrightarrow> \<not> inBlockComment (scanLine pats st line))"
  using assms by (simp add: scanLine_def blockCheck_def Let_def split: prod.splits)

theorem block_flag_after_line_witness:
  "truthy (blockStart c_style) \<and> truthy (blockEnd c_style) \<and> trim ''*/ x /* y'' \<noteq> []
   \<and> includes_str (trim ''*/ x /* y'') (the (blockStart c_style))
   \<and> includes_str (trim ''*/ x /* y'') (the (blockEnd c_style))
   \<and> \<not> inBlockComment (scanLine c_style
          \<lparr>blankLines = 0, commentLines = 1, codeLines = 0, inBlockComment = True\<rparr> ''*/ x /* y'')
   \<and> \<not> inBlockComment (scanLine c_style initialState ''/* x */ y'')
   \<and> inBlockComment (scanLine c_style initialState ''x /* y'')"
proof -
  have t: "truthy (blockStart c_style)" "truthy (blockEnd c_style)"
    by (simp_all add: c_style_def mk_patterns_def truthy_def)
  have n: "trim ''*/ x /* y'' \<noteq> []" "trim ''/* x */ y'' \<noteq> []" "trim ''x /* y'' \<noteq> []"
    by (simp_all add: trim_def isWhiteSpace_def)
  have i: "includes_str (trim ''*/ x /* y'') (the (blockStart c_style))"
    "includes_str (trim ''*/ x /* y'') (the (blockEnd c_style))"
    "includes_str (trim ''/* x */ y'') (the (blockStart c_style))"
    "includes_str (trim ''/* x */ y'') (the (blockEnd c_style))"
    "includes_str (trim ''x /* y'') (the (blockStart c_style))"
    "\<not> includes_str (trim ''x /* y'') (the (blockEnd c_style))"
    by (simp_all add: trim_def isWhiteSpace_def c_style_def mk_patterns_def)
  have s: "\<not> inBlockComment initialState" by (simp add: initialState_def)
  show ?thesis
    using t n(1) i s
      block_flag_after_line [OF t n(1),
        of "\<lparr>blankLines = 0, commentLines = 1, codeLines = 0, inBlockComment = True\<rparr>"]
      block_flag_after_line [OF t n(2), of initialState]
      block_flag_after_line [OF t n(3), of initialState]
    by simp
qed

lemma scanLine_inside:
  assumes "truthy (blockStart pats)" and "truthy (blockEnd pats)" and "inBlockComment st"
    and "\<not> includes_str line (the (blockEnd pats))"
  shows "scanLine pats st line =
    (if trim line = [] then st\<lparr>blankLines := blankLines st + 1\<rparr>
     else st\<lparr>commentLines := commentLines st + 1\<rparr>)"
proof -
  have "\<not> includes_str (trim line) (the (blockEnd pats))"
    using assms(4) includes_trim by blast
  then show ?thesis using assms(1-3)
    by (simp add: scanLine_def blockCheck_def Let_def)
qed

lemma scanLines_inside:
  assumes "truthy (blockStart pats)" and "truthy (blockEnd pats)" and "inBlockComment st"
    and "\<forall>l \<in> set ls. \<not> includes_str l (the (blockEnd pats))"
  shows "scanLines pats st ls =
     st\<lparr>blankLines := blankLines st + length (filter (\<lambda>l. trim l = []) ls),
        commentLines := commentLines st + length (filter (\<lambda>l. trim l \<noteq> []) ls)\<rparr>"
  using assms(3,4)
proof (induction ls arbitrary: st)
  case Nil
  then show ?case by (simp add: scanLines_def)
next
  case (Cons l ls)
  let ?st = "scanLine pats st l"
  have step: "?st =
    (if trim l = [] then st\<lparr>blankLines := blankLines st + 1\<rparr>
     else st\<lparr>commentLines := commentLines st + 1\<rparr>)"
    using scanLine_inside [OF assms(1,2) Cons.prems(1)] Cons.prems(2) by simp
  then have "inBlockComment ?st" using Cons.prems(1) by simp
  moreover have "\<forall>l \<in> set ls. \<not> includes_str l (the (blockEnd pats))"
    using Cons.prems(2) by simp
  ultimately have "scanLines pats ?st ls =
     ?st\<lparr>blankLines := blankLines ?st + length (filter (\<lambda>l. trim l = []) ls),
         commentLines := commentLines ?st + length (filter (\<lambda>l. trim l \<noteq> []) ls)\<rparr>"
    by (rule Cons.IH)
  moreover have "scanLines pats st (l # ls) = scanLines pats ?st ls"
    by (simp add: scanLines_def)
  ultimately show ?case using step by simp
qed

text \<open>
  Claim C4. With both block markers defined, from a state inside a block comment, and
  over lines none of which contains the end marker, the scan counts every line whose
  trimmed form is not empty as comment and the others as blank, counts no code, and
  ends inside the block comment. The content \<open>/* never closes\<newline>line2\<newline>\<close> under C has
  2 comment lines and no code line.
\<close>

theorem unterminated_block_is_comment:
  "(truthy (blockStart pats) \<and> truthy (blockEnd pats) \<and> inBlockComment st
      \<and> (\<forall>l \<in> set ls. \<not> includes_str l (the (blockEnd pats)))
     \<longrightarrow> scanLines pats st ls =
         st\<lparr>blankLines := blankLines st + length (filter (\<lambda>l. trim l = []) ls),
            commentLines := commentLines st + length (filter (\<lambda>l. trim l \<noteq> []) ls)\<rparr>)
   \<and> comment (analyzeFileContent ''/* never closes\<newline>line2\<newline>'' filename (JStr ''C'')) = 2
   \<and> code (analyzeFileContent ''/* never closes\<newline>line2\<newline>'' filename (JStr ''C'')) = 0"
proof (intro conjI impI)
  assume "truthy (blockStart pats) \<and> truthy (blockEnd pats) \<and> inBlockComment st
      \<and> (\<forall>l \<in> set ls. \<not> includes_str l (the (blockEnd pats)))"
  then show "scanLines pats st ls =
         st\<lparr>blankLines := blankLines st + length (filter (\<lambda>l. trim l = []) ls),
            commentLines := commentLines st + length (filter (\<lambda>l. trim l \<noteq> []) ls)\<rparr>"
    using scanLines_inside by blast
next
  show "comment (analyzeFileContent ''/* never closes\<newline>line2\<newline>'' filename (JStr ''C'')) = 2"
    by code_simp
next
  show "code (analyzeFileContent ''/* never closes\<newline>line2\<newline>'' filename (JStr ''C'')) = 0"
    by code_simp
qed

theorem unterminated_block_is_comment_witness:
  "getCommentPatterns (JStr ''C'') = c_style
   \<and> truthy (blockStart c_style) \<and> truthy (blockEnd c_style)
   \<and> inBlockComment (scanLine c_style initialState ''/* never closes'')
   \<and> \<not> includes_str ''line2'' (the (blockEnd c_style))
   \<and> \<not> includes_str ''  '' (the (blockEnd c_style))
   \<and> \<not> includes_str ''x = 1; // y'' (the (blockEnd c_style))
   \<and> scanLines c_style (scanLine c_style initialState ''/* never closes'')
        [''line2'', ''  '', ''x = 1; // y'']
      = \<lparr>blankLines = 1, commentLines = 3, codeLines = 0, inBlockComment = True\<rparr>"
proof -
  let ?st = "scanLine c_style initialState ''/* never closes''"
  have p: "getCommentPatterns (JStr ''C'') = c_style" by code_simp
  have t: "truthy (blockStart c_style) \<and> truthy (blockEnd c_style)"
    by (simp add: c_style_def mk_patterns_def truthy_def)
  have s: "?st = \<lparr>blankLines = 0, commentLines = 1, codeLines = 0, inBlockComment = True\<rparr>"
    by code_simp
  have i: "\<forall>l \<in> set [''line2'', ''  '', ''x = 1; // y'']. \<not> includes_str l (the (blockEnd c_style))"
    by (simp add: c_style_def mk_patterns_def)
  have f: "length (filter (\<lambda>l. trim l = []) [''line2'', ''  '', ''x = 1; // y'']) = 1"
    "length (filter (\<lambda>l. trim l \<noteq> []) [''line2'', ''  '', ''x = 1; // y'']) = 2"
    by (simp_all add: trim_def isWhiteSpace_def)
  show ?thesis
    using p t s i f
      unterminated_block_is_comment [of c_style ?st "[''line2'', ''  '', ''x = 1; // y'']" "''a.c''"]
    by simp
qed








section \<open>The language resolver\<close>

lemma split_str_no_sep: "sep \<notin> set s \<Longrightarrow> split_str sep s = [s]"
  by (induction s) auto

lemma split_str_not_Nil: "split_str sep s \<noteq> []"
  using length_split_str [of sep s] by auto

lemma last_split_str: "sep \<notin> set b \<Longrightarrow> last (split_str sep (a @ sep # b)) = b"
proof (induction a)
  case Nil
  then show ?case by (simp add: split_str_no_sep)
next
  case (Cons c a)
  let ?r = "split_str sep (a @ sep # b)"
  have "length ?r = Suc (count_list (a @ sep # b) sep)" by (rule length_split_str)
  then have "2 \<le> length ?r" by simp
  then obtain p q r where r: "?r = p # q # r"
    by (cases ?r; cases "tl ?r") auto
  have "last (split_str sep ((c # a) @ sep # b)) = last ?r"
    using r by simp
  then show ?case using Cons by simp
qed

lemma extensionOf_dotted:
  "CHR ''.'' \<notin> set ext \<Longrightarrow> extensionOf (base @ CHR ''.'' # ext) = toLowerCase ext"
  by (simp add: extensionOf_def Let_def last_split_str split_str_not_Nil)

lemma extensionOf_dotless:
  "CHR ''.'' \<notin> set filename \<Longrightarrow> extensionOf filename = toLowerCase filename"
  by (simp add: extensionOf_def split_str_no_sep)


text \<open>
  Claim C2, at a file name without a dot. The split of \<open>py\<close> at the dot has the single
  piece \<open>py\<close>, which \<open>pop\<close> returns: the whole name is taken as the extension, and the
  file is resolved to Python, where the claim has the empty extension and the label
  Unknown.
\<close>

theorem dotless_name_is_its_extension:
  "extensionOf ''py'' = ''py'' \<and> getLanguageFromExtension ''py'' = JStr ''Python''"
  by code_simp

section \<open>The comment patterns table\<close>

lemma table_labels_check:
  "list_all (\<lambda>(ext, label).
       label \<in> set [''JSON'', ''Markdown'', ''Text''] \<or> map_of patterns label \<noteq> None)
     languageMap"
  by code_simp

lemma table_labels:
  assumes "(ext, label) \<in> set languageMap" and "label \<notin> {''JSON'', ''Markdown'', ''Text''}"
  shows "map_of patterns label \<noteq> None"
proof -
  from table_labels_check assms(1)
  have "label \<in> set [''JSON'', ''Markdown'', ''Text''] \<or> map_of patterns label \<noteq> None"
    unfolding list_all_iff by blast
  with assms(2) show ?thesis by simp
qed

lemma own_patterns:
  "map_of patterns label = Some p \<Longrightarrow>
   getProp patterns label = Own p \<and> getCommentPatterns (JStr label) = p"
  by (simp add: getCommentPatterns_def getProp_def toPropertyKey_def)

lemma absent_patterns:
  "map_of patterns label = None \<Longrightarrow> label \<notin> set objectPrototypeKeys \<Longrightarrow>
   getProp patterns label = Undefined \<and> getCommentPatterns (JStr label) = defaultPatterns"
  by (simp add: getCommentPatterns_def getProp_def toPropertyKey_def)

lemma fallback_labels:
  "list_all (\<lambda>label. getCommentPatterns (JStr label) = defaultPatterns)
     [''JSON'', ''Markdown'', ''Text'', ''Unknown'']"
  by code_simp

text \<open>
  Claim C7, as the code has it. Every label of the extension table other than JSON,
  Markdown and Text has an entry of its own in the comment patterns table, which the
  lookup returns. A label that has no entry and is not the name of a member inherited
  from \<open>Object.prototype\<close> gets the default grammar, the single-line marker \<open>//\<close> and no
  block markers; so do JSON, Markdown, Text and Unknown.
\<close>

theorem patterns_table_coverage:
  "((ext, label) \<in> set languageMap \<and> label \<notin> {''JSON'', ''Markdown'', ''Text''}
      \<longrightarrow> (\<exists>p. getProp patterns label = Own p \<and> getCommentPatterns (JStr label) = p))
   \<and> (map_of patterns other = None \<and> other \<notin> set objectPrototypeKeys
      \<longrightarrow> getProp patterns other = Undefined
          \<and> getCommentPatterns (JStr other) = defaultPatterns)
   \<and> getCommentPatterns (JStr ''JSON'') = defaultPatterns
   \<and> getCommentPatterns (JStr ''Markdown'') = defaultPatterns
   \<and> getCommentPatterns (JStr ''Text'') = defaultPatterns
   \<and> getCommentPatterns (JStr ''Unknown'') = defaultPatterns
   \<and> defaultPatterns = \<lparr>single = Some ''//'', blockStart = None, blockEnd = None\<rparr>"
proof -
  have a: "(ext, label) \<in> set languageMap \<and> label \<notin> {''JSON'', ''Markdown'', ''Text''}
      \<longrightarrow> (\<exists>p. getProp patterns label = Own p \<and> getCommentPatterns (JStr label) = p)"
    using table_labels own_patterns by blast
  have b: "map_of patterns other = None \<and> other \<notin> set objectPrototypeKeys
      \<longrightarrow> getProp patterns other = Undefined
          \<and> getCommentPatterns (JStr other) = defaultPatterns"
    using absent_patterns by blast
  have c: "defaultPatterns = \<lparr>single = Some ''//'', blockStart = None, blockEnd = None\<rparr>"
    by (simp add: defaultPatterns_def mk_patterns_def)
  from a b c fallback_labels show ?thesis by simp
qed

theorem patterns_table_coverage_witness:
  "(''py'', ''Python'') \<in> set languageMap
   \<and> ''Python'' \<notin> {''JSON'', ''Markdown'', ''Text''}
   \<and> getProp patterns ''Python''
       = Own (mk_patterns (Some ''#'') (Some [CHR 0x22, CHR 0x22, CHR 0x22])
                                       (Some [CHR 0x22, CHR 0x22, CHR 0x22]))
   \<and> map_of patterns ''Fortran'' = None
   \<and> ''Fortran'' \<notin> set objectPrototypeKeys
   \<and> getCommentPatterns (JStr ''Fortran'')
       = \<lparr>single = Some ''//'', blockStart = None, blockEnd = None\<rparr>"
proof -
  have h1: "(''py'', ''Python'') \<in> set languageMap \<and> ''Python'' \<notin> {''JSON'', ''Markdown'', ''Text''}"
    by (simp add: languageMap_def)
  have h2: "map_of patterns ''Fortran'' = None \<and> ''Fortran'' \<notin> set objectPrototypeKeys"
    by code_simp
  have p: "getProp patterns ''Python''
       = Own (mk_patterns (Some ''#'') (Some [CHR 0x22, CHR 0x22, CHR 0x22])
                                       (Some [CHR 0x22, CHR 0x22, CHR 0x22]))"
    by code_simp
  show ?thesis
    using h1 h2 p patterns_table_coverage [of "''py''" "''Python''" "''Fortran''"]
    by simp
qed

text \<open>
  Claim C7 as stated does not hold of the code: the label JSON is in the range of the
  extension table, the resolver produces it, and the comment patterns table has no
  entry for it, so the lookup falls back to the default grammar.
\<close>

theorem patterns_table_coverage_counterexample:
  "(''json'', ''JSON'') \<in> set languageMap
   \<and> getLanguageFromExtension ''package.json'' = JStr ''JSON''
   \<and> map_of patterns ''JSON'' = None
   \<and> getProp patterns ''JSON'' = Undefined"
  by code_simp

section \<open>Aggregation: auxiliary facts\<close>

lemma labels_check:
  "list_all (\<lambda>(ext, label). label \<notin> set objectPrototypeKeys \<and> label \<noteq> []) languageMap"
  by code_simp

lemma label_not_inherited:
  assumes "map_of languageMap ext = Some label"
  shows "label \<notin> set objectPrototypeKeys \<and> label \<noteq> []"
proof -
  from assms have "(ext, label) \<in> set languageMap" by (rule map_of_SomeD)
  with labels_check show ?thesis unfolding list_all_iff by blast
qed

lemma proto_keys_no_space: "k \<in> set objectPrototypeKeys \<Longrightarrow> CHR 0x20 \<notin> set k"
  by (auto simp: objectPrototypeKeys_def)

lemma member_key_has_space: "CHR 0x20 \<in> set (toPropertyKey (ProtoMember m))"
  by (simp add: toPropertyKey_def)

lemma unknown_not_inherited: "''Unknown'' \<notin> set objectPrototypeKeys"
  by (simp add: objectPrototypeKeys_def)

lemma resolver_key_not_inherited:
  "toPropertyKey (getLanguageFromExtension filename) \<notin> set objectPrototypeKeys"
proof (cases "getProp languageMap (extensionOf filename)")
  case (Own label)
  then have "map_of languageMap (extensionOf filename) = Some label"
    by (simp add: getProp_def split: option.splits if_splits)
  then have "label \<notin> set objectPrototypeKeys \<and> label \<noteq> []" by (rule label_not_inherited)
  with Own show ?thesis
    by (simp add: getLanguageFromExtension_def toPropertyKey_def)
next
  case Inherited
  then have "getLanguageFromExtension filename = ProtoMember (extensionOf filename)"
    by (simp add: getLanguageFromExtension_def)
  then show ?thesis
    using member_key_has_space proto_keys_no_space by metis
next
  case Undefined
  then show ?thesis
    using unknown_not_inherited by (simp add: getLanguageFromExtension_def toPropertyKey_def)
qed

lemma keyOf_analysisOf: "keyOf (analysisOf f) \<notin> set objectPrototypeKeys"
  by (simp add: keyOf_def analysisOf_def analyzeFileContent_def Let_def resolver_key_not_inherited)

lemma map_of_setProp: "map_of (setProp ps key v) = (map_of ps)(key \<mapsto> v)"
  by (induction ps key v rule: setProp.induct) auto

lemma keys_setProp:
  "map fst (setProp ps key v) = (if key \<in> set (map fst ps) then map fst ps else map fst ps @ [key])"
  by (induction ps key v rule: setProp.induct) auto

lemma distinct_setProp: "distinct (map fst ps) \<Longrightarrow> distinct (map fst (setProp ps key v))"
  by (simp add: keys_setProp)

lemma sum_setProp_new:
  "map_of ps key = None \<Longrightarrow>
   sum_list (map (\<lambda>p. f (snd p)) (setProp ps key v)) = sum_list (map (\<lambda>p. f (snd p)) ps) + (f v :: nat)"
  by (induction ps key v rule: setProp.induct) (auto split: if_splits)

lemma sum_setProp_own:
  "map_of ps key = Some s \<Longrightarrow>
   sum_list (map (\<lambda>p. f (snd p)) (setProp ps key v)) + f s
     = sum_list (map (\<lambda>p. f (snd p)) ps) + (f v :: nat)"
  by (induction ps key v rule: setProp.induct) (auto split: if_splits)

lemma map_of_recordAnalysis:
  assumes "keyOf a \<notin> set objectPrototypeKeys"
  shows "map_of (recordAnalysis a stats) =
     (map_of stats)(keyOf a \<mapsto>
        addAnalysis (case map_of stats (keyOf a) of None \<Rightarrow> zeroStats | Some s \<Rightarrow> s) a)"
  using assms
  by (simp add: recordAnalysis_def Let_def getProp_def keyOf_def map_of_setProp split: option.splits)

lemma distinct_recordAnalysis:
  "distinct (map fst stats) \<Longrightarrow> distinct (map fst (recordAnalysis a stats))"
  by (simp add: recordAnalysis_def Let_def distinct_setProp split: property.splits)

lemma sum_recordAnalysis:
  assumes "keyOf a \<notin> set objectPrototypeKeys"
    and "\<And>s. f (addAnalysis s a) = f s + g a" and "f zeroStats = 0"
  shows "sum_list (map (\<lambda>p. f (snd p)) (recordAnalysis a stats))
     = sum_list (map (\<lambda>p. f (snd p)) stats) + (g a :: nat)"
proof (cases "map_of stats (keyOf a)")
  case None
  then have "recordAnalysis a stats = setProp stats (keyOf a) (addAnalysis zeroStats a)"
    using assms(1) by (simp add: recordAnalysis_def Let_def getProp_def keyOf_def)
  then show ?thesis using sum_setProp_new [OF None, of f] assms(2,3) by simp
next
  case (Some s)
  then have "recordAnalysis a stats = setProp stats (keyOf a) (addAnalysis s a)"
    by (simp add: recordAnalysis_def Let_def getProp_def keyOf_def)
  then show ?thesis using sum_setProp_own [OF Some, of f "addAnalysis s a"] assms(2) by simp
qed

lemma sumOfStats_recordAnalysis:
  assumes "keyOf a \<notin> set objectPrototypeKeys"
  shows "sumOfStats (map snd (recordAnalysis a stats)) = addAnalysis (sumOfStats (map snd stats)) a"
proof -
  have "sum_list (map (\<lambda>p. ls_files (snd p)) (recordAnalysis a stats))
      = sum_list (map (\<lambda>p. ls_files (snd p)) stats) + 1"
    by (rule sum_recordAnalysis [OF assms, of ls_files "\<lambda>_. 1"]) (simp_all add: addAnalysis_def zeroStats_def)
  moreover have "sum_list (map (\<lambda>p. ls_blank (snd p)) (recordAnalysis a stats))
      = sum_list (map (\<lambda>p. ls_blank (snd p)) stats) + blank a"
    by (rule sum_recordAnalysis [OF assms]) (simp_all add: addAnalysis_def zeroStats_def)
  moreover have "sum_list (map (\<lambda>p. ls_comment (snd p)) (recordAnalysis a stats))
      = sum_list (map (\<lambda>p. ls_comment (snd p)) stats) + comment a"
    by (rule sum_recordAnalysis [OF assms]) (simp_all add: addAnalysis_def zeroStats_def)
  moreover have "sum_list (map (\<lambda>p. ls_code (snd p)) (recordAnalysis a stats))
      = sum_list (map (\<lambda>p. ls_code (snd p)) stats) + code a"
    by (rule sum_recordAnalysis [OF assms]) (simp_all add: addAnalysis_def zeroStats_def)
  moreover have "sum_list (map (\<lambda>p. ls_total (snd p)) (recordAnalysis a stats))
      = sum_list (map (\<lambda>p. ls_total (snd p)) stats) + lines a"
    by (rule sum_recordAnalysis [OF assms]) (simp_all add: addAnalysis_def zeroStats_def)
  ultimately show ?thesis
    by (simp add: sumOfStats_def addAnalysis_def comp_def)
qed

lemma statsOf_snoc: "statsOf (xs @ [a]) = addAnalysis (statsOf xs) a"
  by (simp add: statsOf_def addAnalysis_def)

lemma statsOf_Nil: "statsOf [] = zeroStats"
  by (simp add: statsOf_def zeroStats_def)

lemma foldl_sumStats:
  "foldl sumStats acc ss = sumStats acc (sumOfStats ss)"
proof (induction ss arbitrary: acc)
  case Nil
  show ?case by (simp add: sumStats_def sumOfStats_def)
next
  case (Cons s ss)
  show ?case by (simp add: Cons.IH) (simp add: sumStats_def sumOfStats_def)
qed

lemma sumStats_zero: "sumStats zeroStats s = s"
  by (simp add: sumStats_def zeroStats_def)

text \<open>The loop over the files, as a loop over the analyses of the readable files.\<close>

lemma foldl_processFile:
  "foldl processFile (as, stats) fs =
     (as @ analysesOf fs, foldl (\<lambda>s a. recordAnalysis a s) stats (analysesOf fs))"
proof (induction fs arbitrary: as stats)
  case Nil
  show ?case by (simp add: analysesOf_def)
next
  case (Cons f fs)
  show ?case
  proof (cases "file_text f")
    case None
    then have "processFile (as, stats) f = (as, stats)" by (simp add: processFile_def)
    moreover from None have "analysesOf (f # fs) = analysesOf fs"
      by (simp add: analysesOf_def readable_def)
    ultimately show ?thesis using Cons.IH by simp
  next
    case (Some content)
    then have "processFile (as, stats) f = (as @ [analysisOf f], recordAnalysis (analysisOf f) stats)"
      by (simp add: processFile_def analysisOf_def Let_def)
    moreover from Some have "analysesOf (f # fs) = analysisOf f # analysesOf fs"
      by (simp add: analysesOf_def readable_def)
    ultimately show ?thesis using Cons.IH by simp
  qed
qed

lemma keys_analysesOf: "a \<in> set (analysesOf fs) \<Longrightarrow> keyOf a \<notin> set objectPrototypeKeys"
  by (auto simp: analysesOf_def keyOf_analysisOf)

lemma sumOfStats_records:
  assumes "\<And>a. a \<in> set xs \<Longrightarrow> keyOf a \<notin> set objectPrototypeKeys"
  shows "sumOfStats (map snd (foldl (\<lambda>s a. recordAnalysis a s) [] xs)) = statsOf xs"
  using assms
proof (induction xs rule: rev_induct)
  case Nil
  show ?case by (simp add: sumOfStats_def statsOf_def)
next
  case (snoc a xs)
  then show ?case
    by (simp add: sumOfStats_recordAnalysis statsOf_snoc)
qed

lemma distinct_records:
  "distinct (map fst (foldl (\<lambda>s a. recordAnalysis a s) [] xs))"
  by (induction xs rule: rev_induct) (simp_all add: distinct_recordAnalysis)

lemma map_of_records:
  assumes "\<And>a. a \<in> set xs \<Longrightarrow> keyOf a \<notin> set objectPrototypeKeys"
  shows "map_of (foldl (\<lambda>s a. recordAnalysis a s) [] xs) k =
     (if filter (\<lambda>a. keyOf a = k) xs = [] then None
      else Some (statsOf (filter (\<lambda>a. keyOf a = k) xs)))"
  using assms
proof (induction xs arbitrary: k rule: rev_induct)
  case Nil
  show ?case by simp
next
  case (snoc a xs)
  have ih: "map_of (foldl (\<lambda>s a. recordAnalysis a s) [] xs) k =
     (if filter (\<lambda>a. keyOf a = k) xs = [] then None
      else Some (statsOf (filter (\<lambda>a. keyOf a = k) xs)))" for k
    by (rule snoc.IH) (simp add: snoc.prems)
  have ka: "keyOf a \<notin> set objectPrototypeKeys" using snoc.prems by simp
  show ?case
    by (simp add: map_of_recordAnalysis [OF ka] ih statsOf_snoc statsOf_Nil)
qed

lemma useCodeAnalyzer_eq:
  "useCodeAnalyzer fs =
     \<lparr>languages = foldl (\<lambda>s a. recordAnalysis a s) [] (analysesOf fs),
      total = statsOf (analysesOf fs),
      files = analysesOf fs\<rparr>"
  using sumOfStats_records [of "analysesOf fs"] keys_analysesOf
  by (simp add: useCodeAnalyzer_def foldl_processFile foldl_sumStats sumStats_zero)

lemma statsOf_mset: "mset xs = mset ys \<Longrightarrow> statsOf xs = statsOf ys"
proof -
  assume m: "mset xs = mset ys"
  have s: "sum_list (map f xs) = sum_list (map f ys)" for f :: "FileAnalysis \<Rightarrow> nat"
  proof -
    have "mset (map f xs) = mset (map f ys)" using m by (metis mset_map)
    then have "sum_mset (mset (map f xs)) = sum_mset (mset (map f ys))" by simp
    then show ?thesis by (simp only: sum_mset_sum_list)
  qed
  have "length xs = length ys" using m by (rule mset_eq_length)
  then show ?thesis by (simp add: statsOf_def s)
qed

lemma analysesOf_mset: "mset fs = mset fs' \<Longrightarrow> mset (analysesOf fs) = mset (analysesOf fs')"
  by (simp add: analysesOf_def mset_filter)

section \<open>The report\<close>

text \<open>
  Claim C8. For every list of files, each field of the grand total is the sum of that
  field over the per-language entries, and is the sum of the corresponding field over
  the per-file analyses of the result (their number, for the file count), which are
  the analyses of the readable files in input order. With no files the grand total is
  zero in every field.
\<close>

theorem grand_total_is_sum:
  "total (useCodeAnalyzer fs) = sumOfStats (map snd (languages (useCodeAnalyzer fs)))
   \<and> total (useCodeAnalyzer fs) = statsOf (files (useCodeAnalyzer fs))
   \<and> files (useCodeAnalyzer fs) = analysesOf fs
   \<and> total (useCodeAnalyzer []) =
       \<lparr>ls_files = 0, ls_blank = 0, ls_comment = 0, ls_code = 0, ls_total = 0\<rparr>"
proof -
  have "sumOfStats (map snd (foldl (\<lambda>s a. recordAnalysis a s) [] (analysesOf fs)))
      = statsOf (analysesOf fs)"
    by (rule sumOfStats_records) (rule keys_analysesOf)
  moreover have "statsOf (analysesOf []) = zeroStats"
    by (simp add: analysesOf_def statsOf_Nil)
  ultimately show ?thesis
    by (simp add: useCodeAnalyzer_eq zeroStats_def)
qed

text \<open>
  Claim C9. When one list of files is a permutation of another, the two results have
  the same statistics under every language key (the keys of a result are distinct, so
  the two results have the same set of entries, enumerated in a different order at
  most), the same grand total, and per-file analyses that are a permutation of each
  other.
\<close>

theorem aggregation_order_invariant:
  assumes "mset fs = mset fs'"
  shows "map_of (languages (useCodeAnalyzer fs)) = map_of (languages (useCodeAnalyzer fs'))
    \<and> distinct (map fst (languages (useCodeAnalyzer fs)))
    \<and> set (languages (useCodeAnalyzer fs)) = set (languages (useCodeAnalyzer fs'))
    \<and> total (useCodeAnalyzer fs) = total (useCodeAnalyzer fs')
    \<and> mset (files (useCodeAnalyzer fs)) = mset (files (useCodeAnalyzer fs'))"
proof -
  let ?xs = "analysesOf fs" and ?ys = "analysesOf fs'"
  let ?agg = "foldl (\<lambda>s a. recordAnalysis a s) []"
  have m: "mset ?xs = mset ?ys" using assms by (rule analysesOf_mset)
  have f: "mset (filter (\<lambda>a. keyOf a = k) ?xs) = mset (filter (\<lambda>a. keyOf a = k) ?ys)" for k
    using m by (simp add: mset_filter)
  have e: "filter (\<lambda>a. keyOf a = k) ?xs = [] \<longleftrightarrow> filter (\<lambda>a. keyOf a = k) ?ys = []" for k
    using f [of k] by (metis mset_zero_iff)
  have "map_of (?agg ?xs) k = map_of (?agg ?ys) k" for k
    using e [of k] statsOf_mset [OF f [of k]]
    by (simp add: map_of_records keys_analysesOf)
  then have maps: "map_of (?agg ?xs) = map_of (?agg ?ys)" by (rule ext)
  have d: "distinct (map fst (?agg ?xs))" "distinct (map fst (?agg ?ys))"
    by (rule distinct_records)+
  have sets: "set (?agg ?xs) = set (?agg ?ys)"
    using maps d by (simp add: map_of_inject_set)
  have "statsOf ?xs = statsOf ?ys" using m by (rule statsOf_mset)
  then show ?thesis using maps d(1) sets m by (simp add: useCodeAnalyzer_eq)
qed

theorem aggregation_order_invariant_witness:
  "mset [\<lparr>file_name = ''a.js'', file_text = Some ''x = 1\<newline>// y''\<rparr>,
         \<lparr>file_name = ''b.py'', file_text = Some ''# z\<newline>''\<rparr>]
   = mset [\<lparr>file_name = ''b.py'', file_text = Some ''# z\<newline>''\<rparr>,
           \<lparr>file_name = ''a.js'', file_text = Some ''x = 1\<newline>// y''\<rparr>]
   \<and> map fst (languages (useCodeAnalyzer
         [\<lparr>file_name = ''a.js'', file_text = Some ''x = 1\<newline>// y''\<rparr>,
          \<lparr>file_name = ''b.py'', file_text = Some ''# z\<newline>''\<rparr>])) = [''JavaScript'', ''Python'']
   \<and> map fst (languages (useCodeAnalyzer
         [\<lparr>file_name = ''b.py'', file_text = Some ''# z\<newline>''\<rparr>,
          \<lparr>file_name = ''a.js'', file_text = Some ''x = 1\<newline>// y''\<rparr>])) = [''Python'', ''JavaScript'']
   \<and> map_of (languages (useCodeAnalyzer
         [\<lparr>file_name = ''a.js'', file_text = Some ''x = 1\<newline>// y''\<rparr>,
          \<lparr>file_name = ''b.py'', file_text = Some ''# z\<newline>''\<rparr>]))
     = map_of (languages (useCodeAnalyzer
         [\<lparr>file_name = ''b.py'', file_text = Some ''# z\<newline>''\<rparr>,
          \<lparr>file_name = ''a.js'', file_text = Some ''x = 1\<newline>// y''\<rparr>]))
   \<and> total (useCodeAnalyzer
         [\<lparr>file_name = ''a.js'', file_text = Some ''x = 1\<newline>// y''\<rparr>,
          \<lparr>file_name = ''b.py'', file_text = Some ''# z\<newline>''\<rparr>])
     = total (useCodeAnalyzer
         [\<lparr>file_name = ''b.py'', file_text = Some ''# z\<newline>''\<rparr>,
          \<lparr>file_name = ''a.js'', file_text = Some ''x = 1\<newline>// y''\<rparr>])
   \<and> total (useCodeAnalyzer
         [\<lparr>file_name = ''b.py'', file_text = Some ''# z\<newline>''\<rparr>,
          \<lparr>file_name = ''a.js'', file_text = Some ''x = 1\<newline>// y''\<rparr>])
     = \<lparr>ls_files = 2, ls_blank = 1, ls_comment = 2, ls_code = 1, ls_total = 4\<rparr>"
proof -
  let ?a = "\<lparr>file_name = ''a.js'', file_text = Some ''x = 1\<newline>// y''\<rparr>"
  let ?b = "\<lparr>file_name = ''b.py'', file_text = Some ''# z\<newline>''\<rparr>"
  have h: "mset [?a, ?b] = mset [?b, ?a]" by simp
  have k1: "map fst (languages (useCodeAnalyzer [?a, ?b])) = [''JavaScript'', ''Python'']"
    by code_simp
  have k2: "map fst (languages (useCodeAnalyzer [?b, ?a])) = [''Python'', ''JavaScript'']"
    by code_simp
  have t: "total (useCodeAnalyzer [?b, ?a])
     = \<lparr>ls_files = 2, ls_blank = 1, ls_comment = 2, ls_code = 1, ls_total = 4\<rparr>"
    by code_simp
  show ?thesis
    using h k1 k2 t aggregation_order_invariant [OF h] by simp
qed

end
